theory Spec2Isabelle
  imports Main "HOL-Library.Word"
begin

section \<open>Bytes, strings and Python slicing\<close>

text \<open>
  A Python \<open>bytes\<close> object is a list of 8-bit values.  A Python \<open>str\<close> is modelled as an
  Isabelle \<open>string\<close>: Isabelle characters are the 256 code points of Latin-1, which is
  exactly what \<open>bytes.decode("latin-1")\<close> produces, so the chunk names handled here are
  strings over Latin-1.
\<close>

type_synonym byte = "8 word"
type_synonym bytes = "byte list"

datatype error =
    ValueError string
  | StructError
  | FileNotFoundError string
  | LibraryError string

text \<open>\<open>xs[a:b]\<close> for non-negative \<open>a\<close> and \<open>b\<close>: the slice is clipped at the end of \<open>xs\<close>
  and is empty when \<open>b \<le> a\<close>; it never raises.\<close>

definition py_slice :: "'a list \<Rightarrow> nat \<Rightarrow> nat \<Rightarrow> 'a list" where
  "py_slice xs a b = take (b - a) (drop a xs)"

text \<open>\<open>struct.unpack(">I", bs)[0]\<close>: an unsigned big-endian 32-bit integer; the call raises
  \<open>struct.error\<close> unless \<open>bs\<close> holds exactly four bytes.\<close>

fun unpack_be32 :: "bytes \<Rightarrow> error + nat" where
  "unpack_be32 [b0, b1, b2, b3] =
     Inr (unat b0 * 16777216 + unat b1 * 65536 + unat b2 * 256 + unat b3)"
| "unpack_be32 bs = Inl StructError"

definition decode_latin1 :: "bytes \<Rightarrow> string" where
  "decode_latin1 bs = map (\<lambda>b. char_of (unat b)) bs"

text \<open>\<open>str.lower()\<close> on the Latin-1 range: the letters A-Z and the accented capitals
  U+00C0..U+00DE (without the multiplication sign U+00D7) move up by 32; every other
  code point stays.\<close>

definition lower_char :: "char \<Rightarrow> char" where
  "lower_char c =
     (let n = (of_char c :: nat) in
      if (65 \<le> n \<and> n \<le> 90) \<or> (192 \<le> n \<and> n \<le> 222 \<and> n \<noteq> 215)
      then char_of (n + 32) else c)"

definition lower :: "string \<Rightarrow> string" where
  "lower s = map lower_char s"

section \<open>PNG chunk helpers\<close>

subsection \<open>\<open>find_custom_chunk\<close>\<close>

text \<open>
  The \<open>while\<close> loop of \<open>find_custom_chunk\<close>, with the loop variable \<open>offset\<close> as the
  argument of the recursion.  \<open>lower_names\<close> is the set built before the loop.
\<close>

function find_custom_chunk_loop :: "bytes \<Rightarrow> string set \<Rightarrow> nat \<Rightarrow> error + bytes option" where
  "find_custom_chunk_loop data lower_names offset =
     (if offset + 8 \<le> length data then
        (case unpack_be32 (py_slice data offset (offset + 4)) of
           Inl e \<Rightarrow> Inl e
         | Inr len \<Rightarrow>
             let type_code = decode_latin1 (py_slice data (offset + 4) (offset + 8));
                 chunk_start = offset;
                 chunk_end = offset + 8 + len + 4
             in if lower type_code \<in> lower_names
                then Inr (Some (py_slice data chunk_start chunk_end))
                else find_custom_chunk_loop data lower_names chunk_end)
      else Inr None)"
  by pat_completeness auto
termination
  by (relation "measure (\<lambda>(data, lower_names, offset). length data - offset)") auto

declare find_custom_chunk_loop.simps [simp del]

definition find_custom_chunk :: "bytes \<Rightarrow> string list \<Rightarrow> error + bytes option" where
  "find_custom_chunk data names =
     (let offset = 8;
          lower_names = set (map lower names)
      in find_custom_chunk_loop data lower_names offset)"

subsection \<open>\<open>insert_chunk_before_iend\<close>\<close>

definition IEND :: bytes where
  "IEND = [0x49, 0x45, 0x4E, 0x44]"

function insert_chunk_before_iend_loop :: "bytes \<Rightarrow> bytes \<Rightarrow> nat \<Rightarrow> error + bytes" where
  "insert_chunk_before_iend_loop png_data chunk offset =
     (if offset + 8 \<le> length png_data then
        (case unpack_be32 (py_slice png_data offset (offset + 4)) of
           Inl e \<Rightarrow> Inl e
         | Inr len \<Rightarrow>
             let type_code = py_slice png_data (offset + 4) (offset + 8)
             in if type_code = IEND
                then Inr (take offset png_data @ chunk @ drop offset png_data)
                else insert_chunk_before_iend_loop png_data chunk (offset + (8 + len + 4)))
      else Inr (png_data @ chunk))"
  by pat_completeness auto
termination
  by (relation "measure (\<lambda>(png_data, chunk, offset). length png_data - offset)") auto

declare insert_chunk_before_iend_loop.simps [simp del]

definition insert_chunk_before_iend :: "bytes \<Rightarrow> bytes \<Rightarrow> error + bytes" where
  "insert_chunk_before_iend png_data chunk = insert_chunk_before_iend_loop png_data chunk 8"

subsection \<open>The chunk sequence, in the specification's words\<close>

text \<open>
  A chunk at offset \<open>off\<close> is a 4-byte big-endian length, a 4-byte type code, the
  payload and a 4-byte CRC.  The chunks are identified by scanning in sequence from
  offset 8: the next chunk starts \<open>12 + length\<close> bytes after the current one, as long as
  eight bytes remain for a header.  A type code matches a list of names
  case-insensitively when its lower-cased text is the lower-cased text of a name.
\<close>

definition be_nat :: "bytes \<Rightarrow> nat" where
  "be_nat bs = foldl (\<lambda>acc b. acc * 256 + unat b) 0 bs"

definition chunk_length :: "bytes \<Rightarrow> nat \<Rightarrow> nat" where
  "chunk_length data off = be_nat (py_slice data off (off + 4))"

definition chunk_type :: "bytes \<Rightarrow> nat \<Rightarrow> bytes" where
  "chunk_type data off = py_slice data (off + 4) (off + 8)"

definition chunk_raw :: "bytes \<Rightarrow> nat \<Rightarrow> bytes" where
  "chunk_raw data off = py_slice data off (off + 12 + chunk_length data off)"

function chunk_offsets :: "bytes \<Rightarrow> nat \<Rightarrow> nat list" where
  "chunk_offsets data off =
     (if off + 8 \<le> length data
      then off # chunk_offsets data (off + 12 + chunk_length data off)
      else [])"
  by pat_completeness auto
termination
  by (relation "measure (\<lambda>(data, off). length data - off)") auto

declare chunk_offsets.simps [simp del]

definition type_matches :: "string list \<Rightarrow> bytes \<Rightarrow> bool" where
  "type_matches names tc = (\<exists>name \<in> set names. lower name = lower (decode_latin1 tc))"

subsection \<open>The loops with their iterations recorded\<close>

text \<open>
  The two loops again, returning next to the result the list of the offsets at which
  the loop body ran, one entry for each iteration.
\<close>

function find_custom_chunk_trace ::
  "bytes \<Rightarrow> string set \<Rightarrow> nat \<Rightarrow> (error + bytes option) \<times> nat list" where
  "find_custom_chunk_trace data lower_names offset =
     (if offset + 8 \<le> length data then
        (case unpack_be32 (py_slice data offset (offset + 4)) of
           Inl e \<Rightarrow> (Inl e, [offset])
         | Inr len \<Rightarrow>
             let type_code = decode_latin1 (py_slice data (offset + 4) (offset + 8));
                 chunk_start = offset;
                 chunk_end = offset + 8 + len + 4
             in if lower type_code \<in> lower_names
                then (Inr (Some (py_slice data chunk_start chunk_end)), [offset])
                else (case find_custom_chunk_trace data lower_names chunk_end of
                        (r, visited) \<Rightarrow> (r, offset # visited)))
      else (Inr None, []))"
  by pat_completeness auto
termination
  by (relation "measure (\<lambda>(data, lower_names, offset). length data - offset)") auto

declare find_custom_chunk_trace.simps [simp del]

function insert_chunk_before_iend_trace ::
  "bytes \<Rightarrow> bytes \<Rightarrow> nat \<Rightarrow> (error + bytes) \<times> nat list" where
  "insert_chunk_before_iend_trace png_data chunk offset =
     (if offset + 8 \<le> length png_data then
        (case unpack_be32 (py_slice png_data offset (offset + 4)) of
           Inl e \<Rightarrow> (Inl e, [offset])
         | Inr len \<Rightarrow>
             let type_code = py_slice png_data (offset + 4) (offset + 8)
             in if type_code = IEND
                then (Inr (take offset png_data @ chunk @ drop offset png_data), [offset])
                else (case insert_chunk_before_iend_trace png_data chunk (offset + (8 + len + 4)) of
                        (r, visited) \<Rightarrow> (r, offset # visited)))
      else (Inr (png_data @ chunk), []))"
  by pat_completeness auto
termination
  by (relation "measure (\<lambda>(png_data, chunk, offset). length png_data - offset)") auto

declare insert_chunk_before_iend_trace.simps [simp del]

text \<open>Each element of the list is at least 12 above the one before it.\<close>

fun steps_of_12 :: "nat list \<Rightarrow> bool" where
  "steps_of_12 [] = True"
| "steps_of_12 [x] = True"
| "steps_of_12 (x # y # zs) = (x + 12 \<le> y \<and> steps_of_12 (y # zs))"


section \<open>Images and the image library\<close>

text \<open>
  Python integers are unbounded: sizes, colour components and palette values are \<open>int\<close>.
  An image is its size and its pixels in row-major order: mode \<open>RGBA\<close>, mode \<open>RGB\<close>, a
  single band (mode \<open>L\<close>) and a palette image (mode \<open>P\<close>) whose palette is the flat list
  of integers that \<open>getpalette()\<close> returns.
\<close>

type_synonym colour = "int \<times> int \<times> int"

record rgba_image =
  rgba_size :: "int \<times> int"
  rgba_pixels :: "(byte \<times> byte \<times> byte \<times> byte) list"

record rgb_image =
  rgb_size :: "int \<times> int"
  rgb_pixels :: "(byte \<times> byte \<times> byte) list"

datatype image_mode = Mode_1 | Mode_L

record l_image =
  l_mode :: image_mode
  l_size :: "int \<times> int"
  l_values :: "byte list"

record p_image =
  p_size :: "int \<times> int"
  p_indices :: "byte list"
  p_palette :: "int list"

text \<open>
  The entry points of the image library whose results are not determined by this
  repository: decoding a file (\<open>Image.open(path).convert("RGBA")\<close>), nearest-neighbour
  resizing, \<open>ImageChops.logical_and\<close> (which can raise: it is defined for images of
  mode \<open>1\<close> only), pasting a constant through a mask, the median-cut quantiser and the
  PNG encoder with its \<open>transparency\<close> argument.  They are parameters of the model; what
  a theorem needs of them is stated as a hypothesis.
\<close>

record pillow =
  image_open_rgba :: "bytes \<Rightarrow> error + rgba_image"
  resize_nearest :: "rgba_image \<Rightarrow> int \<times> int \<Rightarrow> rgba_image"
  logical_and :: "l_image \<Rightarrow> l_image \<Rightarrow> error + l_image"
  paste_masked :: "l_image \<Rightarrow> int \<Rightarrow> l_image \<Rightarrow> l_image"
  quantize_mediancut :: "rgb_image \<Rightarrow> int \<Rightarrow> bool \<Rightarrow> p_image"
  save_png :: "p_image \<Rightarrow> int option \<Rightarrow> bytes"

text \<open>The structural image operations: \<open>split\<close> (the bands of an \<open>RGBA\<close> image have mode
  \<open>L\<close>), \<open>point\<close> (which keeps the mode of its band), \<open>Image.new("L", size, color)\<close>,
  \<open>putalpha\<close>, \<open>convert("RGB")\<close>, \<open>getpalette\<close> and \<open>putpalette\<close> (which turns its
  argument into \<open>bytes\<close> and so raises on a value outside 0..255).\<close>

definition split :: "rgba_image \<Rightarrow> l_image \<times> l_image \<times> l_image \<times> l_image" where
  "split im =
     (\<lparr>l_mode = Mode_L, l_size = rgba_size im,
        l_values = map (\<lambda>(r, g, b, a). r) (rgba_pixels im)\<rparr>,
      \<lparr>l_mode = Mode_L, l_size = rgba_size im,
        l_values = map (\<lambda>(r, g, b, a). g) (rgba_pixels im)\<rparr>,
      \<lparr>l_mode = Mode_L, l_size = rgba_size im,
        l_values = map (\<lambda>(r, g, b, a). b) (rgba_pixels im)\<rparr>,
      \<lparr>l_mode = Mode_L, l_size = rgba_size im,
        l_values = map (\<lambda>(r, g, b, a). a) (rgba_pixels im)\<rparr>)"

definition point :: "l_image \<Rightarrow> (int \<Rightarrow> int) \<Rightarrow> l_image" where
  "point band f = band\<lparr>l_values := map (\<lambda>v. word_of_int (f (uint v))) (l_values band)\<rparr>"

definition image_new_L :: "int \<times> int \<Rightarrow> int \<Rightarrow> l_image" where
  "image_new_L sz c =
     \<lparr>l_mode = Mode_L, l_size = sz,
      l_values = replicate (nat (fst sz * snd sz)) (word_of_int c)\<rparr>"

definition putalpha :: "rgba_image \<Rightarrow> l_image \<Rightarrow> rgba_image" where
  "putalpha im alpha =
     im\<lparr>rgba_pixels := map2 (\<lambda>(r, g, b, _) a. (r, g, b, a)) (rgba_pixels im) (l_values alpha)\<rparr>"

definition convert_rgb :: "rgba_image \<Rightarrow> rgb_image" where
  "convert_rgb im =
     \<lparr>rgb_size = rgba_size im, rgb_pixels = map (\<lambda>(r, g, b, a). (r, g, b)) (rgba_pixels im)\<rparr>"

definition getpalette :: "p_image \<Rightarrow> int list" where
  "getpalette im = p_palette im"

definition putpalette :: "p_image \<Rightarrow> int list \<Rightarrow> error + p_image" where
  "putpalette im data =
     (if list_all (\<lambda>v. 0 \<le> v \<and> v \<le> 255) data
      then Inr (im\<lparr>p_palette := data\<rparr>)
      else Inl (ValueError ''bytes must be in range(0, 256)''))"

section \<open>The conversion\<close>

subsection \<open>\<open>ensure_divisible_by_8\<close>\<close>

text \<open>Python's \<open>x or y\<close> on integers: \<open>x\<close> unless it is zero.\<close>

definition py_or :: "int \<Rightarrow> int \<Rightarrow> int" where
  "py_or x y = (if x \<noteq> 0 then x else y)"

fun ensure_divisible_by_8 :: "int \<times> int \<Rightarrow> int \<times> int" where
  "ensure_divisible_by_8 (w, h) =
     (let new_w = py_or ((w div 8) * 8) 8;
          new_h = py_or ((h div 8) * 8) 8
      in (new_w, new_h))"

subsection \<open>The file system\<close>

text \<open>
  The files are a map from paths to contents, and every read, write and printed line
  is recorded in order.  Reading a missing file raises; reading an existing file and
  writing a file succeed.  \<open>os.path.isfile\<close> holds of the paths that have contents.
\<close>

type_synonym path = string

datatype io_event = ReadFile path | WriteFile path | Stdout string

record world =
  files :: "path \<Rightarrow> bytes option"
  events :: "io_event list"

definition read_file :: "world \<Rightarrow> path \<Rightarrow> (error + bytes) \<times> world" where
  "read_file w p =
     (case files w p of
        None \<Rightarrow> (Inl (FileNotFoundError p), w)
      | Some data \<Rightarrow> (Inr data, w\<lparr>events := events w @ [ReadFile p]\<rparr>))"

definition write_file :: "world \<Rightarrow> path \<Rightarrow> bytes \<Rightarrow> world" where
  "write_file w p data = w\<lparr>files := (files w)(p \<mapsto> data), events := events w @ [WriteFile p]\<rparr>"

definition isfile :: "world \<Rightarrow> path \<Rightarrow> bool" where
  "isfile w p = (files w p \<noteq> None)"

subsection \<open>\<open>convert_image\<close>\<close>

text \<open>
  The body of \<open>convert_image\<close>, in four parts that follow its text in order.
  \<open>prepare_transparency\<close> is the block under \<open>if transparent_colour is not None\<close> that
  builds the alpha layer (lines 166-180).
\<close>

definition prepare_transparency :: "pillow \<Rightarrow> rgba_image \<Rightarrow> colour option \<Rightarrow> error + rgba_image" where
  "prepare_transparency lib src transparent_colour =
     (case transparent_colour of
        None \<Rightarrow> Inr src
      | Some (r, g, b) \<Rightarrow>
          (case split src of (r_band, g_band, b_band, _) \<Rightarrow>
             let mask_r = point r_band (\<lambda>v. if v = r then 255 else 0);
                 mask_g = point g_band (\<lambda>v. if v = g then 255 else 0);
                 mask_b = point b_band (\<lambda>v. if v = b then 255 else 0)
             in (case logical_and lib mask_g mask_b of
                   Inl e \<Rightarrow> Inl e
                 | Inr mask_gb \<Rightarrow>
                     (case logical_and lib mask_r mask_gb of
                        Inl e \<Rightarrow> Inl e
                      | Inr trans_mask \<Rightarrow>
                          let alpha = image_new_L (rgba_size src) 255;
                              alpha = paste_masked lib alpha 0 trans_mask
                          in Inr (putalpha src alpha)))))"

text \<open>
  \<open>convert_pixels\<close> is the in-memory part of \<open>convert_image\<close> (lines 158-203): from the
  decoded source image to the palette image and the \<open>transparency\<close> argument that are
  handed to \<open>quantized.save\<close>.
\<close>

definition convert_pixels ::
  "pillow \<Rightarrow> rgba_image \<Rightarrow> int \<Rightarrow> colour option \<Rightarrow> bool \<Rightarrow> error + p_image \<times> int option" where
  "convert_pixels lib src0 max_colours transparent_colour dither =
     (let new_size = ensure_divisible_by_8 (rgba_size src0);
          src1 = (if new_size \<noteq> rgba_size src0 then resize_nearest lib src0 new_size else src0)
      in case prepare_transparency lib src1 transparent_colour of
           Inl e \<Rightarrow> Inl e
         | Inr src \<Rightarrow>
             let quantized = quantize_mediancut lib (convert_rgb src) max_colours dither
             in (case transparent_colour of
                   None \<Rightarrow> Inr (quantized, None)
                 | Some (r, g, b) \<Rightarrow>
                     let palette = getpalette quantized
                     in if int (length palette) div 3 < 256
                        then (let palette = palette @ [r, g, b]
                              in case putpalette quantized palette of
                                   Inl e \<Rightarrow> Inl e
                                 | Inr quantized \<Rightarrow>
                                     Inr (quantized, Some (int (length palette) div 3 - 1)))
                        else Inr (quantized, Some 0)))"

text \<open>The template step (lines 213-219); \<open>if custom_chunk:\<close> is false for \<open>None\<close> and for
  an empty byte string.\<close>

definition apply_template :: "path option \<Rightarrow> bytes \<Rightarrow> world \<Rightarrow> (error + bytes) \<times> world" where
  "apply_template template_path png_data w =
     (case template_path of
        None \<Rightarrow> (Inr png_data, w)
      | Some tp \<Rightarrow>
          if isfile w tp
          then (case read_file w tp of
                  (Inl e, w1) \<Rightarrow> (Inl e, w1)
                | (Inr template_bytes, w1) \<Rightarrow>
                    (case find_custom_chunk template_bytes [''w2lv'', ''walv''] of
                       Inl e \<Rightarrow> (Inl e, w1)
                     | Inr None \<Rightarrow> (Inr png_data, w1)
                     | Inr (Some custom_chunk) \<Rightarrow>
                         if custom_chunk \<noteq> []
                         then (insert_chunk_before_iend png_data custom_chunk, w1)
                         else (Inr png_data, w1)))
          else (Inr png_data, w))"

definition convert_image ::
  "pillow \<Rightarrow> path \<Rightarrow> path \<Rightarrow> path option \<Rightarrow> int \<Rightarrow> colour option \<Rightarrow> bool \<Rightarrow> world
     \<Rightarrow> (error + unit) \<times> world" where
  "convert_image lib input_path output_path template_path max_colours transparent_colour dither w =
     (if max_colours < 1 \<or> max_colours > 112
      then (Inl (ValueError ''max_colours must be between 1 and 112''), w)
      else (case read_file w input_path of
              (Inl e, w1) \<Rightarrow> (Inl e, w1)
            | (Inr input_bytes, w1) \<Rightarrow>
                (case image_open_rgba lib input_bytes of
                   Inl e \<Rightarrow> (Inl e, w1)
                 | Inr src \<Rightarrow>
                     (case convert_pixels lib src max_colours transparent_colour dither of
                        Inl e \<Rightarrow> (Inl e, w1)
                      | Inr (quantized, transparency_index) \<Rightarrow>
                          let png_data = save_png lib quantized transparency_index
                          in (case apply_template template_path png_data w1 of
                                (Inl e, w2) \<Rightarrow> (Inl e, w2)
                              | (Inr png_data, w2) \<Rightarrow>
                                  let w3 = write_file w2 output_path png_data
                                  in (Inr (),
                                      w3\<lparr>events := events w3 @
                                            [Stdout (''Created W:A map: '' @ output_path)]\<rparr>))))))"


section \<open>Vocabulary of the properties\<close>


text \<open>
  What the theorems assume of the library: resizing returns an image of the requested
  size; quantising keeps the size; quantising to \<open>colors\<close> colours returns a palette
  of whole RGB entries, at most \<open>colors\<close> of them, with every pixel index inside it;
  and \<open>ImageChops.logical_and\<close> raises \<open>ValueError("image has wrong mode")\<close> unless both
  of its arguments have mode \<open>1\<close>.
\<close>

definition logical_and_mode_1_only :: "pillow \<Rightarrow> bool" where
  "logical_and_mode_1_only lib =
     (\<forall>a b. \<not> (l_mode a = Mode_1 \<and> l_mode b = Mode_1) \<longrightarrow>
        logical_and lib a b = Inl (ValueError ''image has wrong mode''))"

definition resize_gives_size :: "pillow \<Rightarrow> bool" where
  "resize_gives_size lib = (\<forall>im sz. rgba_size (resize_nearest lib im sz) = sz)"

definition quantize_keeps_size :: "pillow \<Rightarrow> bool" where
  "quantize_keeps_size lib =
     (\<forall>im colors dither. p_size (quantize_mediancut lib im colors dither) = rgb_size im)"


subsection \<open>A small library instance for concrete runs\<close>

text \<open>
  \<open>sample_pillow\<close> instantiates the library parameters so that the theorems can be run
  on concrete inputs.  It decodes a file of five bytes, width, height and one colour,
  to an image of that size and colour; resizes by repeating the first pixel; combines
  masks of mode \<open>1\<close> and raises on any other mode; quantises to the one colour of the
  first pixel; and encodes to a signature, an optional \<open>tRNS\<close> chunk and the \<open>IEND\<close>
  chunk.
\<close>

definition sample_open :: "bytes \<Rightarrow> error + rgba_image" where
  "sample_open data =
     (case data of
        [w, h, r, g, b] \<Rightarrow>
          Inr \<lparr>rgba_size = (uint w, uint h),
               rgba_pixels = replicate (unat w * unat h) (r, g, b, 255)\<rparr>
      | _ \<Rightarrow> Inl (LibraryError ''cannot identify image file''))"

definition sample_resize :: "rgba_image \<Rightarrow> int \<times> int \<Rightarrow> rgba_image" where
  "sample_resize im sz =
     \<lparr>rgba_size = sz,
      rgba_pixels = replicate (nat (fst sz * snd sz))
                      (case rgba_pixels im of [] \<Rightarrow> (0, 0, 0, 0) | px # _ \<Rightarrow> px)\<rparr>"

definition sample_and :: "l_image \<Rightarrow> l_image \<Rightarrow> error + l_image" where
  "sample_and a b =
     (if l_mode a = Mode_1 \<and> l_mode b = Mode_1
      then Inr (a\<lparr>l_values := map2 (\<lambda>x y. if x \<noteq> 0 \<and> y \<noteq> 0 then 255 else 0)
                                     (l_values a) (l_values b)\<rparr>)
      else Inl (ValueError ''image has wrong mode''))"

definition sample_paste :: "l_image \<Rightarrow> int \<Rightarrow> l_image \<Rightarrow> l_image" where
  "sample_paste im c msk =
     im\<lparr>l_values := map2 (\<lambda>v m. if m \<noteq> 0 then word_of_int c else v)
                          (l_values im) (l_values msk)\<rparr>"

definition sample_quantize :: "rgb_image \<Rightarrow> int \<Rightarrow> bool \<Rightarrow> p_image" where
  "sample_quantize im colors dither =
     \<lparr>p_size = rgb_size im,
      p_indices = map (\<lambda>_. 0) (rgb_pixels im),
      p_palette = (case rgb_pixels im of
                     [] \<Rightarrow> [0, 0, 0]
                   | (r, g, b) # _ \<Rightarrow> [uint r, uint g, uint b])\<rparr>"

definition sample_save :: "p_image \<Rightarrow> int option \<Rightarrow> bytes" where
  "sample_save im transparency =
     [137, 80, 78, 71, 13, 10, 26, 10] @
     (case transparency of
        None \<Rightarrow> []
      | Some k \<Rightarrow> [0, 0, 0, 1, 0x74, 0x52, 0x4E, 0x53, word_of_int k, 0, 0, 0, 0]) @
     [0, 0, 0, 0] @ IEND @ [174, 66, 96, 130]"

definition sample_pillow :: pillow where
  "sample_pillow =
     \<lparr>image_open_rgba = sample_open,
      resize_nearest = sample_resize,
      logical_and = sample_and,
      paste_masked = sample_paste,
      quantize_mediancut = sample_quantize,
      save_png = sample_save\<rparr>"

definition black_8x8 :: rgba_image where
  "black_8x8 = \<lparr>rgba_size = (8, 8), rgba_pixels = replicate 64 (0, 0, 0, 255)\<rparr>"

definition sample_world :: world where
  "sample_world =
     \<lparr>files = [''in.png'' \<mapsto> [8, 8, 0, 0, 0],
               ''map.png'' \<mapsto> [137, 80, 78, 71, 13, 10, 26, 10,
                                    0, 0, 0, 2, 0x77, 0x61, 0x4C, 0x56, 5, 6, 1, 2, 3, 4,
                                    0, 0, 0, 0, 0x49, 0x45, 0x4E, 0x44, 174, 66, 96, 130]],
      events = []\<rparr>"

section \<open>Facts about the chunk scan\<close>

lemma length_py_slice: "length (py_slice xs a b) = min (b - a) (length xs - a)"
  by (simp add: py_slice_def)

lemma unpack_be32_be_nat: "length bs = 4 \<Longrightarrow> unpack_be32 bs = Inr (be_nat bs)"
proof -
  assume "length bs = 4"
  then obtain a b c d where "bs = [a, b, c, d]"
    by (auto simp: numeral_eq_Suc length_Suc_conv)
  then show ?thesis by (simp add: be_nat_def)
qed

lemma unpack_header:
  "off + 8 \<le> length data \<Longrightarrow>
   unpack_be32 (py_slice data off (off + 4)) = Inr (chunk_length data off)"
  unfolding chunk_length_def by (rule unpack_be32_be_nat) (simp add: length_py_slice)

lemma chunk_offsets_step:
  "off + 8 \<le> length data \<Longrightarrow>
   chunk_offsets data off = off # chunk_offsets data (off + 12 + chunk_length data off)"
  by (subst chunk_offsets.simps) simp

lemma chunk_offsets_stop: "\<not> off + 8 \<le> length data \<Longrightarrow> chunk_offsets data off = []"
  by (subst chunk_offsets.simps) simp

lemma find_loop_step:
  assumes "off + 8 \<le> length data"
  shows "find_custom_chunk_loop data ln off =
     (if lower (decode_latin1 (chunk_type data off)) \<in> ln
      then Inr (Some (chunk_raw data off))
      else find_custom_chunk_loop data ln (off + 12 + chunk_length data off))"
  using assms
  by (subst find_custom_chunk_loop.simps)
     (simp add: unpack_header chunk_type_def chunk_raw_def Let_def add.commute add.left_commute)

lemma find_loop_stop:
  "\<not> off + 8 \<le> length data \<Longrightarrow> find_custom_chunk_loop data ln off = Inr None"
  by (subst find_custom_chunk_loop.simps) simp

lemma find_trace_step:
  assumes "off + 8 \<le> length data"
  shows "find_custom_chunk_trace data ln off =
     (if lower (decode_latin1 (chunk_type data off)) \<in> ln
      then (Inr (Some (chunk_raw data off)), [off])
      else (fst (find_custom_chunk_trace data ln (off + 12 + chunk_length data off)),
            off # snd (find_custom_chunk_trace data ln (off + 12 + chunk_length data off))))"
  using assms
  by (subst find_custom_chunk_trace.simps)
     (simp add: unpack_header chunk_type_def chunk_raw_def case_prod_beta Let_def
                add.commute add.left_commute)

lemma find_trace_stop:
  "\<not> off + 8 \<le> length data \<Longrightarrow> find_custom_chunk_trace data ln off = (Inr None, [])"
  by (subst find_custom_chunk_trace.simps) simp

lemma insert_loop_step:
  assumes "off + 8 \<le> length d"
  shows "insert_chunk_before_iend_loop d c off =
     (if chunk_type d off = IEND
      then Inr (take off d @ c @ drop off d)
      else insert_chunk_before_iend_loop d c (off + 12 + chunk_length d off))"
  using assms
  by (subst insert_chunk_before_iend_loop.simps)
     (simp add: unpack_header chunk_type_def Let_def add.commute add.left_commute)

lemma insert_loop_stop:
  "\<not> off + 8 \<le> length d \<Longrightarrow> insert_chunk_before_iend_loop d c off = Inr (d @ c)"
  by (subst insert_chunk_before_iend_loop.simps) simp

lemma insert_trace_step:
  assumes "off + 8 \<le> length d"
  shows "insert_chunk_before_iend_trace d c off =
     (if chunk_type d off = IEND
      then (Inr (take off d @ c @ drop off d), [off])
      else (fst (insert_chunk_before_iend_trace d c (off + 12 + chunk_length d off)),
            off # snd (insert_chunk_before_iend_trace d c (off + 12 + chunk_length d off))))"
  using assms
  by (subst insert_chunk_before_iend_trace.simps)
     (simp add: unpack_header chunk_type_def case_prod_beta Let_def add.commute add.left_commute)

lemma insert_trace_stop:
  "\<not> off + 8 \<le> length d \<Longrightarrow> insert_chunk_before_iend_trace d c off = (Inr (d @ c), [])"
  by (subst insert_chunk_before_iend_trace.simps) simp

lemma type_matches_iff:
  "(lower (decode_latin1 tc) \<in> lower ` set names) = type_matches names tc"
  unfolding type_matches_def by (metis (no_types) image_iff)

lemma find_loop_spec:
  "find_custom_chunk_loop data (set (map lower names)) off =
     Inr (case List.find (\<lambda>k. type_matches names (chunk_type data k)) (chunk_offsets data off) of
            None \<Rightarrow> None | Some k \<Rightarrow> Some (chunk_raw data k))"
proof (induction data off rule: chunk_offsets.induct)
  case (1 data off)
  show ?case
  proof (cases "off + 8 \<le> length data")
    case False
    then show ?thesis by (simp add: find_loop_stop chunk_offsets_stop)
  next
    case True
    from "1.IH"[OF True] show ?thesis
      by (simp add: find_loop_step[OF True] chunk_offsets_step[OF True] type_matches_iff)
  qed
qed

lemma insert_loop_spec:
  "insert_chunk_before_iend_loop png_data chunk off =
     Inr (case List.find (\<lambda>k. chunk_type png_data k = IEND) (chunk_offsets png_data off) of
            None \<Rightarrow> png_data @ chunk
          | Some k \<Rightarrow> take k png_data @ chunk @ drop k png_data)"
proof (induction png_data off rule: chunk_offsets.induct)
  case (1 data off)
  show ?case
  proof (cases "off + 8 \<le> length data")
    case False
    then show ?thesis by (simp add: insert_loop_stop chunk_offsets_stop)
  next
    case True
    from "1.IH"[OF True] show ?thesis
      by (simp add: insert_loop_step[OF True] chunk_offsets_step[OF True])
  qed
qed

lemma find_trace_fst:
  "fst (find_custom_chunk_trace data ln off) = find_custom_chunk_loop data ln off"
proof (induction data off rule: chunk_offsets.induct)
  case (1 data off)
  show ?case
  proof (cases "off + 8 \<le> length data")
    case False
    then show ?thesis by (simp add: find_trace_stop find_loop_stop)
  next
    case True
    from "1.IH"[OF True] show ?thesis
      by (simp add: find_trace_step[OF True] find_loop_step[OF True])
  qed
qed

lemma find_trace_prefix:
  "\<exists>rest. chunk_offsets data off = snd (find_custom_chunk_trace data ln off) @ rest"
proof (induction data off rule: chunk_offsets.induct)
  case (1 data off)
  show ?case
  proof (cases "off + 8 \<le> length data")
    case False
    then show ?thesis by (simp add: find_trace_stop)
  next
    case True
    from "1.IH"[OF True] show ?thesis
      by (simp add: find_trace_step[OF True] chunk_offsets_step[OF True])
  qed
qed

lemma insert_trace_fst:
  "fst (insert_chunk_before_iend_trace d c off) = insert_chunk_before_iend_loop d c off"
proof (induction d off rule: chunk_offsets.induct)
  case (1 data off)
  show ?case
  proof (cases "off + 8 \<le> length data")
    case False
    then show ?thesis by (simp add: insert_trace_stop insert_loop_stop)
  next
    case True
    from "1.IH"[OF True] show ?thesis
      by (simp add: insert_trace_step[OF True] insert_loop_step[OF True])
  qed
qed

lemma insert_trace_prefix:
  "\<exists>rest. chunk_offsets d off = snd (insert_chunk_before_iend_trace d c off) @ rest"
proof (induction d off rule: chunk_offsets.induct)
  case (1 data off)
  show ?case
  proof (cases "off + 8 \<le> length data")
    case False
    then show ?thesis by (simp add: insert_trace_stop)
  next
    case True
    from "1.IH"[OF True] show ?thesis
      by (simp add: insert_trace_step[OF True] chunk_offsets_step[OF True])
  qed
qed

lemma chunk_offsets_hd: "chunk_offsets data off = x # xs \<Longrightarrow> x = off"
  by (cases "off + 8 \<le> length data") (simp_all add: chunk_offsets_step chunk_offsets_stop)

lemma chunk_offsets_steps: "steps_of_12 (chunk_offsets data off)"
proof (induction data off rule: chunk_offsets.induct)
  case (1 data off)
  show ?case
  proof (cases "off + 8 \<le> length data")
    case False
    then show ?thesis by (simp add: chunk_offsets_stop)
  next
    case True
    let ?n = "off + 12 + chunk_length data off"
    note eq = chunk_offsets_step[OF True]
    show ?thesis
    proof (cases "chunk_offsets data ?n")
      case Nil
      with eq show ?thesis by simp
    next
      case (Cons y ys)
      then have "y = ?n" by (rule chunk_offsets_hd)
      with Cons eq "1.IH"[OF True] show ?thesis by simp
    qed
  qed
qed

lemma chunk_offsets_length:
  "chunk_offsets data off = [] \<or> length (chunk_offsets data off) * 12 + off \<le> length data + 4"
proof (induction data off rule: chunk_offsets.induct)
  case (1 data off)
  show ?case
  proof (cases "off + 8 \<le> length data")
    case False
    then show ?thesis by (simp add: chunk_offsets_stop)
  next
    case True
    from "1.IH"[OF True] True show ?thesis
      by (simp add: chunk_offsets_step[OF True]) (erule disjE; simp)
  qed
qed

lemma chunk_offsets_bound: "length (chunk_offsets data 8) \<le> length data div 12 + 1"
proof -
  from chunk_offsets_length[of data 8] show ?thesis
  proof
    assume "chunk_offsets data 8 = []"
    then show ?thesis by simp
  next
    assume "length (chunk_offsets data 8) * 12 + 8 \<le> length data + 4"
    then show ?thesis by arith
  qed
qed

lemma steps_of_12_append: "steps_of_12 (xs @ ys) \<Longrightarrow> steps_of_12 xs"
  by (induction xs rule: steps_of_12.induct) auto

text \<open>The loops unfolded once, in the form used to run them on concrete data.\<close>

lemma find_custom_chunk_loop_unfold [code]:
  "find_custom_chunk_loop data ln off =
     (if off + 8 \<le> length data
      then if lower (decode_latin1 (chunk_type data off)) \<in> ln
           then Inr (Some (chunk_raw data off))
           else find_custom_chunk_loop data ln (off + 12 + chunk_length data off)
      else Inr None)"
  by (simp add: find_loop_step find_loop_stop)

lemma insert_chunk_before_iend_loop_unfold [code]:
  "insert_chunk_before_iend_loop d c off =
     (if off + 8 \<le> length d
      then if chunk_type d off = IEND
           then Inr (take off d @ c @ drop off d)
           else insert_chunk_before_iend_loop d c (off + 12 + chunk_length d off)
      else Inr (d @ c))"
  by (simp add: insert_loop_step insert_loop_stop)

lemma find_custom_chunk_spec:
  "find_custom_chunk data names =
     Inr (case List.find (\<lambda>k. type_matches names (chunk_type data k)) (chunk_offsets data 8) of
            None \<Rightarrow> None | Some k \<Rightarrow> Some (chunk_raw data k))"
  unfolding find_custom_chunk_def Let_def by (rule find_loop_spec)

lemma insert_chunk_before_iend_spec:
  "insert_chunk_before_iend png_data chunk =
     Inr (case List.find (\<lambda>k. chunk_type png_data k = IEND) (chunk_offsets png_data 8) of
            None \<Rightarrow> png_data @ chunk
          | Some k \<Rightarrow> take k png_data @ chunk @ drop k png_data)"
  unfolding insert_chunk_before_iend_def by (rule insert_loop_spec)

lemma chunk_offsets_in_range: "k \<in> set (chunk_offsets data off) \<Longrightarrow> k + 8 \<le> length data"
proof (induction data off rule: chunk_offsets.induct)
  case (1 data off)
  show ?case
  proof (cases "off + 8 \<le> length data")
    case False
    with "1.prems" show ?thesis by (simp add: chunk_offsets_stop)
  next
    case True
    with "1.IH"[OF True] "1.prems" show ?thesis
      by (auto simp: chunk_offsets_step[OF True])
  qed
qed

lemma length_chunk_raw:
  "length (chunk_raw data k) = min (12 + chunk_length data k) (length data - k)"
  by (simp add: chunk_raw_def length_py_slice)

section \<open>The chunk helpers: claims\<close>

text \<open>
  C6, as amended.  \<open>find_custom_chunk\<close> scans the chunks in sequence from offset 8 and
  returns the bytes of the first chunk whose type code matches one of the names
  case-insensitively, and \<open>None\<close> when no chunk matches.  The returned bytes start at
  the chunk's offset and are 12 + length bytes long, or run to the end of the data
  when fewer than 12 + length bytes remain there.
\<close>

theorem find_custom_chunk_first_match:
  "find_custom_chunk data names =
     Inr (case List.find (\<lambda>k. type_matches names (chunk_type data k)) (chunk_offsets data 8) of
            None \<Rightarrow> None
          | Some k \<Rightarrow> Some (py_slice data k (k + 12 + chunk_length data k)))
   \<and> (\<forall>k. length (py_slice data k (k + 12 + chunk_length data k)) =
            min (12 + chunk_length data k) (length data - k))"
  using find_custom_chunk_spec[of data names, unfolded chunk_raw_def]
    length_chunk_raw[of data, unfolded chunk_raw_def]
  by blast

text \<open>
  C6 as stated fails on truncated data: a \<open>w2lv\<close> chunk that declares five payload bytes
  but ends after its type code is returned as 8 bytes, not 12 + 5.
\<close>

theorem find_custom_chunk_short_counterexample:
  "find_custom_chunk
     [137, 80, 78, 71, 13, 10, 26, 10, 0, 0, 0, 5, 0x77, 0x32, 0x6C, 0x76] [''w2lv'', ''walv'']
     = Inr (Some [0, 0, 0, 5, 0x77, 0x32, 0x6C, 0x76])
   \<and> chunk_length [137, 80, 78, 71, 13, 10, 26, 10, 0, 0, 0, 5, 0x77, 0x32, 0x6C, 0x76] 8 = 5
   \<and> length [0, 0, 0, 5, 0x77, 0x32, 0x6C, 0x76 :: byte] = 8"
  by code_simp

text \<open>
  C7.  \<open>insert_chunk_before_iend\<close> returns the data with the chunk inserted at the offset
  of the first chunk of type \<open>IEND\<close> met by the scan from offset 8, and the data followed
  by the chunk when the scan meets no such chunk.
\<close>

theorem insert_chunk_before_iend_first_iend:
  "insert_chunk_before_iend png_data chunk =
     Inr (case List.find (\<lambda>k. chunk_type png_data k = IEND) (chunk_offsets png_data 8) of
            None \<Rightarrow> png_data @ chunk
          | Some k \<Rightarrow> take k png_data @ chunk @ drop k png_data)"
  by (rule insert_chunk_before_iend_spec)

text \<open>
  C8.  Both loops terminate (the functions are total, by the measure
  \<open>length data - offset\<close>).  The loops instrumented with the list of offsets at which the
  body runs return the same results; successive offsets grow by at least 12, and the
  body runs at most \<open>length data div 12 + 1\<close> times.
\<close>

theorem chunk_scans_bounded:
  "fst (find_custom_chunk_trace data (set (map lower names)) 8) = find_custom_chunk data names
   \<and> steps_of_12 (snd (find_custom_chunk_trace data (set (map lower names)) 8))
   \<and> length (snd (find_custom_chunk_trace data (set (map lower names)) 8)) \<le> length data div 12 + 1
   \<and> fst (insert_chunk_before_iend_trace data chunk 8) = insert_chunk_before_iend data chunk
   \<and> steps_of_12 (snd (insert_chunk_before_iend_trace data chunk 8))
   \<and> length (snd (insert_chunk_before_iend_trace data chunk 8)) \<le> length data div 12 + 1"
proof -
  let ?ln = "set (map lower names)"
  obtain r1 where r1: "chunk_offsets data 8 = snd (find_custom_chunk_trace data ?ln 8) @ r1"
    using find_trace_prefix[of data 8 ?ln] by blast
  obtain r2 where r2: "chunk_offsets data 8 = snd (insert_chunk_before_iend_trace data chunk 8) @ r2"
    using insert_trace_prefix[of data 8 chunk] by blast
  have s1: "steps_of_12 (snd (find_custom_chunk_trace data ?ln 8))"
    by (rule steps_of_12_append[of _ r1]) (use chunk_offsets_steps[of data 8] r1 in simp)
  have s2: "steps_of_12 (snd (insert_chunk_before_iend_trace data chunk 8))"
    by (rule steps_of_12_append[of _ r2]) (use chunk_offsets_steps[of data 8] r2 in simp)
  have l1: "length (snd (find_custom_chunk_trace data ?ln 8)) \<le> length (chunk_offsets data 8)"
    by (subst r1) simp
  have l2: "length (snd (insert_chunk_before_iend_trace data chunk 8)) \<le> length (chunk_offsets data 8)"
    by (subst r2) simp
  have f1: "fst (find_custom_chunk_trace data ?ln 8) = find_custom_chunk data names"
    unfolding find_custom_chunk_def Let_def by (rule find_trace_fst)
  have f2: "fst (insert_chunk_before_iend_trace data chunk 8) = insert_chunk_before_iend data chunk"
    unfolding insert_chunk_before_iend_def by (rule insert_trace_fst)
  have b1: "length (snd (find_custom_chunk_trace data ?ln 8)) \<le> length data div 12 + 1"
    using l1 chunk_offsets_bound[of data] by (rule order_trans)
  have b2: "length (snd (insert_chunk_before_iend_trace data chunk 8)) \<le> length data div 12 + 1"
    using l2 chunk_offsets_bound[of data] by (rule order_trans)
  from s1 s2 b1 b2 f1 f2 show ?thesis
    by (intro conjI)
qed

text \<open>
  C9.  The result of \<open>insert_chunk_before_iend\<close> is the data with the chunk spliced in at
  one position: it is \<open>prefix @ chunk @ suffix\<close> with \<open>prefix @ suffix\<close> the data, and
  its length is the sum of the two lengths.
\<close>

theorem insert_chunk_before_iend_splice:
  "\<exists>prefix suffix.
      insert_chunk_before_iend png_data chunk = Inr (prefix @ chunk @ suffix)
      \<and> prefix @ suffix = png_data
      \<and> length (prefix @ chunk @ suffix) = length png_data + length chunk"
proof (cases "List.find (\<lambda>k. chunk_type png_data k = IEND) (chunk_offsets png_data 8)")
  case None
  then have "insert_chunk_before_iend png_data chunk = Inr (png_data @ chunk @ [])"
    by (simp add: insert_chunk_before_iend_spec)
  moreover have "png_data @ [] = png_data" by simp
  moreover have "length (png_data @ chunk @ []) = length png_data + length chunk" by simp
  ultimately show ?thesis by blast
next
  case (Some k)
  then have "insert_chunk_before_iend png_data chunk
      = Inr (take k png_data @ chunk @ drop k png_data)"
    by (simp add: insert_chunk_before_iend_spec)
  moreover have "take k png_data @ drop k png_data = png_data" by simp
  moreover have "length (take k png_data @ chunk @ drop k png_data)
      = length png_data + length chunk"
    by (simp add: min_def)
  ultimately show ?thesis by blast
qed

text \<open>
  C10.  \<open>find_custom_chunk\<close> never raises: the loop guard leaves four bytes for
  \<open>struct.unpack\<close> at every offset, so the result is a value for every byte string.
  When the first matching chunk declares more bytes than the data holds from its
  offset, the result is the rest of the data, shorter than 12 + length bytes.
\<close>

theorem find_custom_chunk_total:
  "(\<exists>r. find_custom_chunk data names = Inr r)
   \<and> (\<forall>k. List.find (\<lambda>k. type_matches names (chunk_type data k)) (chunk_offsets data 8) = Some k
           \<and> length data < k + 12 + chunk_length data k
        \<longrightarrow> find_custom_chunk data names = Inr (Some (drop k data))
            \<and> length (drop k data) < 12 + chunk_length data k)"
proof (intro conjI allI impI)
  show "\<exists>r. find_custom_chunk data names = Inr r"
    using find_custom_chunk_spec[of data names] by blast
next
  fix k
  assume h: "List.find (\<lambda>k. type_matches names (chunk_type data k)) (chunk_offsets data 8) = Some k
     \<and> length data < k + 12 + chunk_length data k"
  then have f: "List.find (\<lambda>k. type_matches names (chunk_type data k)) (chunk_offsets data 8) = Some k"
    and l: "length data < k + 12 + chunk_length data k"
    by blast+
  from l have "length data - k \<le> k + 12 + chunk_length data k - k" by arith
  then have raw: "chunk_raw data k = drop k data"
    unfolding chunk_raw_def py_slice_def by (simp only: take_all_iff length_drop)
  show "find_custom_chunk data names = Inr (Some (drop k data))"
    using find_custom_chunk_spec[of data names] f raw by simp
  from l have "length data - k < 12 + chunk_length data k" by arith
  then show "length (drop k data) < 12 + chunk_length data k"
    by (simp only: length_drop)
qed

theorem find_custom_chunk_total_witness:
  "List.find (\<lambda>k. type_matches [''w2lv'', ''walv''] (chunk_type
       [137, 80, 78, 71, 13, 10, 26, 10, 0, 0, 0, 0, 0x49, 0x48, 0x44, 0x52, 1, 2, 3, 4,
        0, 0, 1, 0, 0x57, 0x41, 0x6C, 0x76, 9, 9, 9] k))
     (chunk_offsets
       [137, 80, 78, 71, 13, 10, 26, 10, 0, 0, 0, 0, 0x49, 0x48, 0x44, 0x52, 1, 2, 3, 4,
        0, 0, 1, 0, 0x57, 0x41, 0x6C, 0x76, 9, 9, 9] 8) = Some 20
   \<and> find_custom_chunk
       [137, 80, 78, 71, 13, 10, 26, 10, 0, 0, 0, 0, 0x49, 0x48, 0x44, 0x52, 1, 2, 3, 4,
        0, 0, 1, 0, 0x57, 0x41, 0x6C, 0x76, 9, 9, 9] [''w2lv'', ''walv'']
     = Inr (Some [0, 0, 1, 0, 0x57, 0x41, 0x6C, 0x76, 9, 9, 9])
   \<and> length [0, 0, 1, 0, 0x57, 0x41, 0x6C, 0x76, 9, 9, 9 :: byte] < 12 + 256"
proof -
  let ?d = "[137, 80, 78, 71, 13, 10, 26, 10, 0, 0, 0, 0, 0x49, 0x48, 0x44, 0x52, 1, 2, 3, 4,
        0, 0, 1, 0, 0x57, 0x41, 0x6C, 0x76, 9, 9, 9] :: bytes"
  have f: "List.find (\<lambda>k. type_matches [''w2lv'', ''walv''] (chunk_type ?d k))
      (chunk_offsets ?d 8) = Some 20"
    by code_simp
  have l: "chunk_length ?d 20 = 256"
    by code_simp
  have t: "length ?d < 20 + 12 + chunk_length ?d 20"
    unfolding l by simp
  have e: "drop 20 ?d = [0, 0, 1, 0, 0x57, 0x41, 0x6C, 0x76, 9, 9, 9]"
    by simp
  note r = find_custom_chunk_total[of ?d "[''w2lv'', ''walv'']",
      THEN conjunct2, THEN spec, of 20, THEN mp, OF conjI, OF f t]
  from r have r1: "find_custom_chunk ?d [''w2lv'', ''walv'']
      = Inr (Some [0, 0, 1, 0, 0x57, 0x41, 0x6C, 0x76, 9, 9, 9])"
    unfolding e by (rule conjunct1)
  from r have r2: "length [0, 0, 1, 0, 0x57, 0x41, 0x6C, 0x76, 9, 9, 9 :: byte] < 12 + 256"
    unfolding e l by (rule conjunct2)
  from f r1 r2 show ?thesis by (intro conjI)
qed

section \<open>Facts about the conversion\<close>

lemma round_down_8:
  fixes w :: int
  defines "w' \<equiv> (if (w div 8) * 8 \<noteq> 0 then (w div 8) * 8 else 8)"
  shows "w' mod 8 = 0 \<and> (if 0 \<le> w \<and> w < 8 then w' = 8 else w' \<le> w \<and> w < w' + 8)"
  unfolding w'_def by (cases "0 \<le> w \<and> w < 8") (simp_all, presburger+)

lemma prepare_transparency_size:
  "prepare_transparency lib src tc = Inr src' \<Longrightarrow> rgba_size src' = rgba_size src"
  by (auto simp: prepare_transparency_def putalpha_def Let_def
           split: option.splits prod.splits sum.splits)

text \<open>The shape of every successful result of \<open>convert_pixels\<close>.\<close>

lemma convert_pixels_result:
  assumes "convert_pixels lib src0 max_colours tc dither = Inr (q, t)"
  shows "\<exists>src. rgba_size src =
            rgba_size (if ensure_divisible_by_8 (rgba_size src0) \<noteq> rgba_size src0
                       then resize_nearest lib src0 (ensure_divisible_by_8 (rgba_size src0))
                       else src0)
          \<and> p_size q = p_size (quantize_mediancut lib (convert_rgb src) max_colours dither)
          \<and> p_indices q = p_indices (quantize_mediancut lib (convert_rgb src) max_colours dither)
          \<and> (case tc of
                None \<Rightarrow> q = quantize_mediancut lib (convert_rgb src) max_colours dither \<and> t = None
              | Some (r, g, b) \<Rightarrow>
                  if int (length (p_palette (quantize_mediancut lib (convert_rgb src) max_colours dither))) div 3 < 256
                  then p_palette q =
                         p_palette (quantize_mediancut lib (convert_rgb src) max_colours dither) @ [r, g, b]
                       \<and> t = Some (int (length (p_palette q)) div 3 - 1)
                  else q = quantize_mediancut lib (convert_rgb src) max_colours dither \<and> t = Some 0)"
proof -
  let ?src1 = "if ensure_divisible_by_8 (rgba_size src0) \<noteq> rgba_size src0
               then resize_nearest lib src0 (ensure_divisible_by_8 (rgba_size src0))
               else src0"
  from assms obtain src where p: "prepare_transparency lib ?src1 tc = Inr src"
    by (auto simp: convert_pixels_def Let_def split: sum.splits)
  have sz: "rgba_size src = rgba_size ?src1"
    using p by (rule prepare_transparency_size)
  let ?q0 = "quantize_mediancut lib (convert_rgb src) max_colours dither"
  have rest: "p_size q = p_size ?q0 \<and> p_indices q = p_indices ?q0
     \<and> (case tc of
           None \<Rightarrow> q = ?q0 \<and> t = None
         | Some (r, g, b) \<Rightarrow>
             if int (length (p_palette ?q0)) div 3 < 256
             then p_palette q = p_palette ?q0 @ [r, g, b]
                  \<and> t = Some (int (length (p_palette q)) div 3 - 1)
             else q = ?q0 \<and> t = Some 0)"
    using assms p
    by (auto simp: convert_pixels_def Let_def getpalette_def putpalette_def
             split: sum.splits option.splits prod.splits if_splits)
  from sz rest show ?thesis by blast
qed

lemma convert_image_run:
  assumes "1 \<le> max_colours" and "max_colours \<le> 112"
    and "files w input_path = Some input_bytes"
    and "image_open_rgba lib input_bytes = Inr src"
    and "convert_pixels lib src max_colours tc dither = Inr (q, t)"
  shows "convert_image lib input_path output_path template_path max_colours tc dither w =
     (case apply_template template_path (save_png lib q t)
             (w\<lparr>events := events w @ [ReadFile input_path]\<rparr>) of
        (Inl e, w2) \<Rightarrow> (Inl e, w2)
      | (Inr png_data, w2) \<Rightarrow>
          (Inr (),
           (write_file w2 output_path png_data)
             \<lparr>events := events (write_file w2 output_path png_data) @
                         [Stdout (''Created W:A map: '' @ output_path)]\<rparr>))"
  unfolding convert_image_def Let_def using assms by (simp add: read_file_def)

lemma apply_template_none: "apply_template None png_data w = (Inr png_data, w)"
  by (simp add: apply_template_def)

lemma names_case_insensitive:
  "type_matches [''w2lv'', ''waLV''] tc = type_matches [''w2lv'', ''walv''] tc"
proof -
  have "lower ''waLV'' = lower ''walv''" by code_simp
  then show ?thesis by (simp add: type_matches_def)
qed

lemma find_offset_in_range:
  "List.find P (chunk_offsets data off) = Some k \<Longrightarrow> k + 8 \<le> length data"
  by (rule chunk_offsets_in_range[of k data off]) (auto simp: find_Some_iff)

lemma chunk_raw_nonempty: "k + 8 \<le> length data \<Longrightarrow> chunk_raw data k \<noteq> []"
proof -
  assume "k + 8 \<le> length data"
  then have "0 < length (chunk_raw data k)"
    by (simp add: length_chunk_raw)
  then show ?thesis by blast
qed

lemma apply_template_some:
  assumes "files w tp = Some template_bytes"
  shows "apply_template (Some tp) png_data w =
     (case List.find (\<lambda>k. type_matches [''w2lv'', ''waLV''] (chunk_type template_bytes k))
             (chunk_offsets template_bytes 8) of
        None \<Rightarrow> (Inr png_data, w\<lparr>events := events w @ [ReadFile tp]\<rparr>)
      | Some k \<Rightarrow> (insert_chunk_before_iend png_data (chunk_raw template_bytes k),
                   w\<lparr>events := events w @ [ReadFile tp]\<rparr>))"
proof (cases "List.find (\<lambda>k. type_matches [''w2lv'', ''walv''] (chunk_type template_bytes k))
               (chunk_offsets template_bytes 8)")
  case None
  with assms show ?thesis
    by (simp add: apply_template_def isfile_def read_file_def find_custom_chunk_spec
                  names_case_insensitive)
next
  case (Some k)
  then have "chunk_raw template_bytes k \<noteq> []"
    by (intro chunk_raw_nonempty find_offset_in_range)
  with Some assms show ?thesis
    by (simp add: apply_template_def isfile_def read_file_def find_custom_chunk_spec
                  names_case_insensitive)
qed

lemma chunk_type_drop: "chunk_type (drop j data) 0 = chunk_type data j"
  by (simp add: chunk_type_def py_slice_def add.commute)

text \<open>The sample library meets the assumptions made of the library.\<close>

lemma sample_resize_gives_size: "resize_gives_size sample_pillow"
  by (simp add: resize_gives_size_def sample_pillow_def sample_resize_def)

lemma sample_quantize_keeps_size: "quantize_keeps_size sample_pillow"
  by (simp add: quantize_keeps_size_def sample_pillow_def sample_quantize_def)

lemma sample_logical_and_mode_1_only: "logical_and_mode_1_only sample_pillow"
  by (simp add: logical_and_mode_1_only_def sample_pillow_def sample_and_def)


section \<open>The conversion: claims\<close>

text \<open>
  C5.  When \<open>max_colours\<close> is below 1 or above 112, \<open>convert_image\<close> raises the
  \<open>ValueError\<close> and leaves the world as it was: no file is read or written and nothing
  is printed.
\<close>

theorem convert_image_rejects_max_colours:
  assumes "max_colours < 1 \<or> max_colours > 112"
  shows "convert_image lib input_path output_path template_path max_colours
           transparent_colour dither w
         = (Inl (ValueError ''max_colours must be between 1 and 112''), w)"
  using assms by (simp add: convert_image_def)

theorem convert_image_rejects_max_colours_witness:
  "convert_image sample_pillow ''in.png'' ''out.png'' (Some ''map.png'') 113
     (Some (0, 0, 0)) False sample_world
   = (Inl (ValueError ''max_colours must be between 1 and 112''), sample_world)
   \<and> files sample_world ''out.png'' = None"
proof -
  have h: "(113 :: int) < 1 \<or> (113 :: int) > 112" by simp
  have n: "files sample_world ''out.png'' = None" by (simp add: sample_world_def)
  from convert_image_rejects_max_colours[OF h] n show ?thesis by (intro conjI)
qed

text \<open>
  C3.  Given a library whose resize returns the requested size and whose quantiser
  keeps the size, the image handed to the encoder has width \<open>(w // 8) * 8\<close> if that is
  not zero and 8 otherwise, and likewise for the height: a multiple of 8, equal to 8
  when the input dimension is below 8 and otherwise the largest multiple of 8 not
  above the input dimension.
\<close>

theorem convert_image_output_size:
  assumes "resize_gives_size lib" and "quantize_keeps_size lib"
    and "rgba_size src = (w, h)"
    and "convert_pixels lib src max_colours transparent_colour dither
           = Inr (quantized, transparency_index)"
  shows "\<exists>w' h'. p_size quantized = (w', h')
     \<and> w' = (if (w div 8) * 8 \<noteq> 0 then (w div 8) * 8 else 8)
     \<and> h' = (if (h div 8) * 8 \<noteq> 0 then (h div 8) * 8 else 8)
     \<and> w' mod 8 = 0 \<and> (if 0 \<le> w \<and> w < 8 then w' = 8 else w' \<le> w \<and> w < w' + 8)
     \<and> h' mod 8 = 0 \<and> (if 0 \<le> h \<and> h < 8 then h' = 8 else h' \<le> h \<and> h < h' + 8)"
proof -
  let ?new = "ensure_divisible_by_8 (rgba_size src)"
  let ?src1 = "if ?new \<noteq> rgba_size src then resize_nearest lib src ?new else src"
  from convert_pixels_result[OF assms(4)] obtain src' where
    s: "rgba_size src' = rgba_size ?src1"
    and q: "p_size quantized
              = p_size (quantize_mediancut lib (convert_rgb src') max_colours dither)"
    by blast
  have "rgba_size ?src1 = ?new"
  proof (cases "?new = rgba_size src")
    case True
    then show ?thesis by simp
  next
    case False
    then show ?thesis
      using assms(1) unfolding resize_gives_size_def by (simp del: split_paired_All)
  qed
  moreover have "p_size quantized = rgba_size src'"
    using assms(2) q by (simp add: quantize_keeps_size_def convert_rgb_def)
  ultimately have "p_size quantized = ?new"
    using s by simp
  then have sz: "p_size quantized
      = (if (w div 8) * 8 \<noteq> 0 then (w div 8) * 8 else 8,
         if (h div 8) * 8 \<noteq> 0 then (h div 8) * 8 else 8)"
    using assms(3) by (simp add: py_or_def Let_def)
  let ?w' = "if (w div 8) * 8 \<noteq> 0 then (w div 8) * 8 else 8"
  let ?h' = "if (h div 8) * 8 \<noteq> 0 then (h div 8) * 8 else 8"
  note a1 = round_down_8[of w, THEN conjunct1] and a2 = round_down_8[of w, THEN conjunct2]
  note b1 = round_down_8[of h, THEN conjunct1] and b2 = round_down_8[of h, THEN conjunct2]
  show ?thesis
    by (rule exI[of _ ?w'], rule exI[of _ ?h']) (intro conjI sz refl a1 a2 b1 b2)
qed

theorem convert_image_output_size_witness:
  "convert_pixels sample_pillow
      \<lparr>rgba_size = (21, 7), rgba_pixels = replicate 147 (1, 2, 3, 255)\<rparr> 112 None False
     = Inr (\<lparr>p_size = (16, 8), p_indices = replicate 128 0, p_palette = [1, 2, 3]\<rparr>, None)
   \<and> p_size \<lparr>p_size = (16, 8), p_indices = replicate 128 0, p_palette = [1, 2, 3]\<rparr>
       = (16, 8)"
proof -
  let ?src = "\<lparr>rgba_size = (21, 7), rgba_pixels = replicate 147 (1, 2, 3, 255)\<rparr>"
  let ?q = "\<lparr>p_size = (16, 8), p_indices = replicate 128 0, p_palette = [1, 2, 3]\<rparr>"
  have c: "convert_pixels sample_pillow ?src 112 None False = Inr (?q, None)"
    by code_simp
  have z: "rgba_size ?src = (21, 7)" by simp
  from convert_image_output_size[OF sample_resize_gives_size sample_quantize_keeps_size z c]
  have "p_size ?q = (16, 8)"
    by simp
  with c show ?thesis by (intro conjI)
qed



text \<open>
  C1, what the code does.  With a transparent colour given, the masks built by
  \<open>point\<close> on the bands of the source have mode \<open>L\<close>, and the first call of
  \<open>ImageChops.logical_and\<close> on them raises \<open>ValueError("image has wrong mode")\<close>.  The
  conversion stops there for every image and every colour: \<open>convert_image\<close> returns that
  error after reading the input, and writes no file.  So no pixel of the transparent
  colour is written transparent, as no image is written.
\<close>

theorem convert_image_transparency_raises:
  assumes "logical_and_mode_1_only lib"
    and "1 \<le> max_colours" and "max_colours \<le> 112"
    and "files w input_path = Some input_bytes"
    and "image_open_rgba lib input_bytes = Inr src"
  shows "convert_pixels lib src max_colours (Some transparent_colour) dither
           = Inl (ValueError ''image has wrong mode'')
     \<and> convert_image lib input_path output_path template_path max_colours
           (Some transparent_colour) dither w
         = (Inl (ValueError ''image has wrong mode''),
            w\<lparr>events := events w @ [ReadFile input_path]\<rparr>)"
proof -
  obtain r g b where c: "transparent_colour = (r, g, b)"
    by (cases transparent_colour)
  have p: "prepare_transparency lib im (Some (r, g, b))
      = Inl (ValueError ''image has wrong mode'')" for im
    using assms(1)
    by (simp add: prepare_transparency_def split_def point_def Let_def
                  logical_and_mode_1_only_def)
  have px: "convert_pixels lib src max_colours (Some transparent_colour) dither
      = Inl (ValueError ''image has wrong mode'')"
    unfolding c convert_pixels_def Let_def by (simp add: p)
  have "convert_image lib input_path output_path template_path max_colours
      (Some transparent_colour) dither w
    = (Inl (ValueError ''image has wrong mode''),
       w\<lparr>events := events w @ [ReadFile input_path]\<rparr>)"
    unfolding convert_image_def Let_def
    using assms(2-5) by (simp add: read_file_def px)
  with px show ?thesis by (intro conjI)
qed

theorem convert_image_transparency_raises_witness:
  "image_open_rgba sample_pillow [8, 8, 0, 0, 0] = Inr black_8x8
   \<and> list_all (\<lambda>(r, g, b, a). (uint r, uint g, uint b) = (0, 0, 0)) (rgba_pixels black_8x8)
   \<and> convert_image sample_pillow ''in.png'' ''out.png'' None 112 (Some (0, 0, 0)) False
       sample_world
     = (Inl (ValueError ''image has wrong mode''),
        sample_world\<lparr>events := events sample_world @ [ReadFile ''in.png'']\<rparr>)
   \<and> files (sample_world\<lparr>events := events sample_world @ [ReadFile ''in.png'']\<rparr>)
       ''out.png'' = None"
proof -
  have m: "(1 :: int) \<le> 112" "(112 :: int) \<le> 112" by simp_all
  have f: "files sample_world ''in.png'' = Some [8, 8, 0, 0, 0]"
    by (simp add: sample_world_def)
  have d: "image_open_rgba sample_pillow [8, 8, 0, 0, 0] = Inr black_8x8"
    by code_simp
  have b: "list_all (\<lambda>(r, g, b, a). (uint r, uint g, uint b) = (0, 0, 0))
             (rgba_pixels black_8x8)"
    by code_simp
  have n: "files (sample_world\<lparr>events := events sample_world @ [ReadFile ''in.png'']\<rparr>)
      ''out.png'' = None"
    by (simp add: sample_world_def)
  note r = convert_image_transparency_raises[OF sample_logical_and_mode_1_only m f d,
      of "(0, 0, 0)" False "''out.png''" None, THEN conjunct2]
  from d b r n show ?thesis by (intro conjI)
qed

text \<open>
  C4.  Take a run of \<open>convert_image\<close> that reaches the encoder, with a template path
  naming an existing file, and an encoder output in which the chunk scan finds the
  \<open>IEND\<close> chunk at offset \<open>j\<close>.  If the scan of the template finds a chunk whose type
  code matches \<open>w2lv\<close> or \<open>waLV\<close> case-insensitively, the written file is the encoder
  output with the raw bytes of the first such chunk inserted at \<open>j\<close>, so that they
  stand immediately before the \<open>IEND\<close> chunk.  If it finds none, the written file is
  the encoder output, as it is when no template is given.
\<close>

theorem convert_image_template_chunk:
  assumes "1 \<le> max_colours" and "max_colours \<le> 112"
    and "files w input_path = Some input_bytes"
    and "image_open_rgba lib input_bytes = Inr src"
    and "convert_pixels lib src max_colours transparent_colour dither
           = Inr (quantized, transparency_index)"
    and "png_data = save_png lib quantized transparency_index"
    and "files w template_path = Some template_bytes"
    and "List.find (\<lambda>j. chunk_type png_data j = IEND) (chunk_offsets png_data 8) = Some j"
  shows "case List.find (\<lambda>k. type_matches [''w2lv'', ''waLV''] (chunk_type template_bytes k))
                (chunk_offsets template_bytes 8) of
           Some k \<Rightarrow>
             convert_image lib input_path output_path (Some template_path) max_colours
                 transparent_colour dither w
               = (Inr (),
                  \<lparr>files = (files w)(output_path \<mapsto>
                             take j png_data @ chunk_raw template_bytes k @ drop j png_data),
                   events = events w @ [ReadFile input_path, ReadFile template_path,
                             WriteFile output_path,
                             Stdout (''Created W:A map: '' @ output_path)]\<rparr>)
             \<and> chunk_type (drop j png_data) 0 = IEND
         | None \<Rightarrow>
             files (snd (convert_image lib input_path output_path (Some template_path)
                 max_colours transparent_colour dither w)) output_path = Some png_data
             \<and> files (snd (convert_image lib input_path output_path None
                 max_colours transparent_colour dither w)) output_path = Some png_data"
proof -
  let ?w1 = "w\<lparr>events := events w @ [ReadFile input_path]\<rparr>"
  note run = convert_image_run[OF assms(1-5), folded assms(6)]
  have tpl: "files ?w1 template_path = Some template_bytes"
    using assms(7) by simp
  note at = apply_template_some[OF tpl, of png_data]
  have no_template: "files (snd (convert_image lib input_path output_path None
      max_colours transparent_colour dither w)) output_path = Some png_data"
    by (simp add: run apply_template_none write_file_def)
  show ?thesis
  proof (cases "List.find (\<lambda>k. type_matches [''w2lv'', ''waLV''] (chunk_type template_bytes k))
                  (chunk_offsets template_bytes 8)")
    case None
    then have "files (snd (convert_image lib input_path output_path (Some template_path)
        max_colours transparent_colour dither w)) output_path = Some png_data"
      by (simp add: run at write_file_def)
    with None no_template show ?thesis by simp
  next
    case (Some k)
    have ins: "insert_chunk_before_iend png_data (chunk_raw template_bytes k)
        = Inr (take j png_data @ chunk_raw template_bytes k @ drop j png_data)"
      using assms(8) by (simp add: insert_chunk_before_iend_spec)
    have "chunk_type png_data j = IEND"
      using assms(8) by (auto simp: find_Some_iff)
    then have iend: "chunk_type (drop j png_data) 0 = IEND"
      by (simp only: chunk_type_drop)
    have "convert_image lib input_path output_path (Some template_path) max_colours
        transparent_colour dither w
      = (Inr (),
         \<lparr>files = (files w)(output_path \<mapsto>
                    take j png_data @ chunk_raw template_bytes k @ drop j png_data),
          events = events w @ [ReadFile input_path, ReadFile template_path,
                    WriteFile output_path,
                    Stdout (''Created W:A map: '' @ output_path)]\<rparr>)"
      using Some by (simp add: run at ins write_file_def)
    with Some iend show ?thesis by simp
  qed
qed

theorem convert_image_template_chunk_witness:
  "files (snd (convert_image sample_pillow ''in.png'' ''out.png'' (Some ''map.png'') 112
                 None False sample_world)) ''out.png''
   = Some [137, 80, 78, 71, 13, 10, 26, 10,
           0, 0, 0, 2, 0x77, 0x61, 0x4C, 0x56, 5, 6, 1, 2, 3, 4,
           0, 0, 0, 0, 0x49, 0x45, 0x4E, 0x44, 174, 66, 96, 130]"
proof -
  let ?tb = "[137, 80, 78, 71, 13, 10, 26, 10,
              0, 0, 0, 2, 0x77, 0x61, 0x4C, 0x56, 5, 6, 1, 2, 3, 4,
              0, 0, 0, 0, 0x49, 0x45, 0x4E, 0x44, 174, 66, 96, 130] :: bytes"
  let ?png = "[137, 80, 78, 71, 13, 10, 26, 10,
               0, 0, 0, 0, 0x49, 0x45, 0x4E, 0x44, 174, 66, 96, 130] :: bytes"
  let ?q = "\<lparr>p_size = (8, 8), p_indices = replicate 64 0, p_palette = [0, 0, 0]\<rparr>"
  have m: "(1 :: int) \<le> 112" "(112 :: int) \<le> 112" by simp_all
  have h3: "files sample_world ''in.png'' = Some [8, 8, 0, 0, 0]"
    by (simp add: sample_world_def)
  have h4: "image_open_rgba sample_pillow [8, 8, 0, 0, 0] = Inr black_8x8"
    by code_simp
  have h5: "convert_pixels sample_pillow black_8x8 112 None False = Inr (?q, None)"
    by code_simp
  have h6: "?png = save_png sample_pillow ?q None"
    by code_simp
  have h7: "files sample_world ''map.png'' = Some ?tb"
    by (simp add: sample_world_def)
  have h8: "List.find (\<lambda>j. chunk_type ?png j = IEND) (chunk_offsets ?png 8) = Some 8"
    by code_simp
  have f: "List.find (\<lambda>k. type_matches [''w2lv'', ''waLV''] (chunk_type ?tb k))
             (chunk_offsets ?tb 8) = Some 8"
    by code_simp
  have e: "take 8 ?png @ chunk_raw ?tb 8 @ drop 8 ?png
      = [137, 80, 78, 71, 13, 10, 26, 10,
         0, 0, 0, 2, 0x77, 0x61, 0x4C, 0x56, 5, 6, 1, 2, 3, 4,
         0, 0, 0, 0, 0x49, 0x45, 0x4E, 0x44, 174, 66, 96, 130]"
    by code_simp
  note r = convert_image_template_chunk[OF m h3 h4 h5 h6 h7 h8, of "''out.png''",
      unfolded f option.case e, THEN conjunct1]
  show ?thesis
    by (simp only: r snd_conv world.simps fun_upd_same)
qed

end
